theory Spec2Isabelle
  imports Main
begin

section \<open>The bounded TTL cache of the Map/WeakMap cheatsheet\<close>

text \<open>
  The development embeds the constructor function \<^verbatim>\<open>Cache\<close> (section
  "3. Cache Implementation (using Map)" of the Map cheatsheet) and its three methods
  \<^verbatim>\<open>set\<close>, \<^verbatim>\<open>get\<close> and \<^verbatim>\<open>clear\<close>.

  \<^item> \<^verbatim>\<open>Date.now()\<close> is the only input the methods read from the environment; each
    method takes the reading as its last argument \<open>now\<close> (milliseconds, an integer).
  \<^item> Timestamps, TTLs and the capacity are JavaScript numbers; they are modelled as
    \<open>int\<close> (the integers a double represents exactly), so zero and negative capacities
    and TTLs are inputs of the model.
  \<^item> A parameter with a default value is an \<open>option\<close>: \<open>None\<close> is the omitted argument.
\<close>

subsection \<open>JavaScript values\<close>

text \<open>The payloads a caller stores; \<open>JNull\<close> is also what \<^verbatim>\<open>get\<close> returns for "absent".\<close>

datatype jsval = JNull | JUndefined | JBool bool | JNum int | JStr string

text \<open>Anything a JavaScript function may throw.\<close>

datatype js_throw = Throw jsval

subsection \<open>The built-in Map\<close>

text \<open>
  A JavaScript \<^verbatim>\<open>Map\<close> iterates in insertion order, so it is an association list, oldest
  key first. \<^verbatim>\<open>Map.prototype.set\<close> overwrites the value of a present key where it stands
  and appends a new key at the end; \<^verbatim>\<open>delete\<close> removes the key; \<^verbatim>\<open>get\<close> yields
  \<^verbatim>\<open>undefined\<close> (\<open>None\<close>) for a missing key; \<^verbatim>\<open>keys().next().value\<close> is the oldest
  key, or \<^verbatim>\<open>undefined\<close> (\<open>None\<close>) on an empty map.
\<close>

fun Map_set :: "'k \<Rightarrow> 'v \<Rightarrow> ('k \<times> 'v) list \<Rightarrow> ('k \<times> 'v) list" where
  "Map_set k v [] = [(k, v)]"
| "Map_set k v (p # ps) = (if fst p = k then (k, v) # ps else p # Map_set k v ps)"

definition Map_delete :: "'k \<Rightarrow> ('k \<times> 'v) list \<Rightarrow> ('k \<times> 'v) list" where
  "Map_delete k m = filter (\<lambda>p. fst p \<noteq> k) m"

definition Map_get :: "('k \<times> 'v) list \<Rightarrow> 'k \<Rightarrow> 'v option" where
  "Map_get m k = map_of m k"

definition Map_size :: "('k \<times> 'v) list \<Rightarrow> int" where
  "Map_size m = int (length m)"

definition Map_first_key :: "('k \<times> 'v) list \<Rightarrow> 'k option" where
  "Map_first_key m = (case m of [] \<Rightarrow> None | p # _ \<Rightarrow> Some (fst p))"

definition Map_keys :: "('k \<times> 'v) list \<Rightarrow> 'k list" where
  "Map_keys m = map fst m"

subsection \<open>The cache\<close>

text \<open>The object literal \<^verbatim>\<open>{ value, expiry: Date.now() + ttl }\<close> stored under each key.\<close>

record entry =
  entry_value :: jsval
  expiry :: int

text \<open>The two fields the constructor sets on \<^verbatim>\<open>this\<close>.\<close>

record 'k cache_obj =
  cache :: "('k \<times> entry) list"
  maxSize :: int

text \<open>
  \<^verbatim>\<open>function Cache(maxSize = 100) { this.cache = new Map(); this.maxSize = maxSize; ... }\<close>
  The body has no check of its argument and no \<^verbatim>\<open>throw\<close>: every call returns (\<open>Inr\<close>).
\<close>

definition Cache :: "int option \<Rightarrow> js_throw + 'k cache_obj" where
  "Cache maxSize_arg =
     Inr \<lparr>cache = [], maxSize = (case maxSize_arg of None \<Rightarrow> 100 | Some n \<Rightarrow> n)\<rparr>"

text \<open>
  \<^verbatim>\<open>set(key, value, ttl = 60000)\<close>: when the map holds \<open>maxSize\<close> entries or more, the
  oldest key is deleted (on an empty map the key read is \<^verbatim>\<open>undefined\<close> and the delete
  removes nothing); then the entry is stored with \<^verbatim>\<open>Map.prototype.set\<close>.
\<close>

definition Cache_set :: "'k cache_obj \<Rightarrow> 'k \<Rightarrow> jsval \<Rightarrow> int option \<Rightarrow> int \<Rightarrow> 'k cache_obj" where
  "Cache_set c key v ttl_arg now =
     (let ttl = (case ttl_arg of None \<Rightarrow> 60000 | Some t \<Rightarrow> t);
          m = (if Map_size (cache c) \<ge> maxSize c
               then (case Map_first_key (cache c) of
                       None \<Rightarrow> cache c
                     | Some firstKey \<Rightarrow> Map_delete firstKey (cache c))
               else cache c)
      in c\<lparr>cache := Map_set key \<lparr>entry_value = v, expiry = now + ttl\<rparr> m\<rparr>)"

text \<open>
  \<^verbatim>\<open>get(key)\<close> returns the value read and the cache as the call leaves it: \<^verbatim>\<open>null\<close>
  for a missing key; \<^verbatim>\<open>null\<close>, after deleting the key, when \<^verbatim>\<open>Date.now() > data.expiry\<close>;
  the stored value otherwise. (A stored entry is an object, so \<^verbatim>\<open>!data\<close> holds exactly
  for the missing key.)
\<close>

definition Cache_get :: "'k cache_obj \<Rightarrow> 'k \<Rightarrow> int \<Rightarrow> jsval \<times> 'k cache_obj" where
  "Cache_get c key now =
     (case Map_get (cache c) key of
        None \<Rightarrow> (JNull, c)
      | Some data \<Rightarrow>
          if now > expiry data then (JNull, c\<lparr>cache := Map_delete key (cache c)\<rparr>)
          else (entry_value data, c))"

definition Cache_clear :: "'k cache_obj \<Rightarrow> 'k cache_obj" where
  "Cache_clear c = c\<lparr>cache := []\<rparr>"

subsection \<open>Sequences of calls\<close>

text \<open>
  A caller's program is a list of method calls, each paired with the clock reading at
  which it runs. \<open>run\<close> performs them in order and returns the cache they leave.
\<close>

datatype 'k call = Put 'k jsval "int option" | Get 'k | Clear

fun exec :: "'k cache_obj \<Rightarrow> int \<times> 'k call \<Rightarrow> 'k cache_obj" where
  "exec c (now, Put key v ttl_arg) = Cache_set c key v ttl_arg now"
| "exec c (now, Get key) = snd (Cache_get c key now)"
| "exec c (now, Clear) = Cache_clear c"

definition run :: "'k cache_obj \<Rightarrow> (int \<times> 'k call) list \<Rightarrow> 'k cache_obj" where
  "run c calls = foldl exec c calls"

section \<open>Facts about the Map model\<close>

lemma Map_keys_set:
  "Map_keys (Map_set k v m) = (if k \<in> set (Map_keys m) then Map_keys m else Map_keys m @ [k])"
  by (induction m) (auto simp: Map_keys_def)

lemma Map_set_new: "k \<notin> set (Map_keys m) \<Longrightarrow> Map_set k v m = m @ [(k, v)]"
  by (induction m) (auto simp: Map_keys_def)

lemma Map_get_set: "Map_get (Map_set k v m) k' = (if k' = k then Some v else Map_get m k')"
  by (induction m) (auto simp: Map_get_def)

lemma Map_get_delete: "Map_get (Map_delete k m) k' = (if k' = k then None else Map_get m k')"
  by (induction m) (auto simp: Map_get_def Map_delete_def)

lemma Map_get_None_iff: "Map_get m k = None \<longleftrightarrow> k \<notin> set (Map_keys m)"
  by (simp add: Map_get_def Map_keys_def map_of_eq_None_iff)

lemma Map_keys_delete: "Map_keys (Map_delete k m) = removeAll k (Map_keys m)"
  by (induction m) (auto simp: Map_keys_def Map_delete_def)

lemma length_Map_set_le: "length (Map_set k v m) \<le> Suc (length m)"
  by (induction m) auto

lemma length_Map_set_present:
  "k \<in> set (Map_keys m) \<Longrightarrow> length (Map_set k v m) = length m"
  by (induction m) (auto simp: Map_keys_def)

lemma length_Map_delete_le: "length (Map_delete k m) \<le> length m"
  by (simp add: Map_delete_def)

lemma length_Map_delete_first: "length (Map_delete (fst p) (p # ps)) \<le> length ps"
  by (simp add: Map_delete_def)

lemma Map_delete_first_distinct:
  assumes "distinct (Map_keys (p # ps))"
  shows "Map_delete (fst p) (p # ps) = ps"
proof -
  from assms have "fst p \<notin> fst ` set ps"
    by (simp add: Map_keys_def)
  then have "filter (\<lambda>q. fst q \<noteq> fst p) ps = ps"
    by (induction ps) auto
  then show ?thesis
    by (simp add: Map_delete_def)
qed

lemma distinct_Map_set: "distinct (Map_keys m) \<Longrightarrow> distinct (Map_keys (Map_set k v m))"
  by (simp add: Map_keys_set)

lemma distinct_Map_delete: "distinct (Map_keys m) \<Longrightarrow> distinct (Map_keys (Map_delete k m))"
  by (simp add: Map_keys_delete distinct_removeAll)

section \<open>Facts about the methods\<close>

text \<open>What \<^verbatim>\<open>set\<close> leaves in the map, branch by branch.\<close>

lemma Cache_set_below_capacity:
  "Map_size (cache c) < maxSize c \<Longrightarrow>
   cache (Cache_set c key v ttl_arg now)
     = Map_set key \<lparr>entry_value = v,
          expiry = now + (case ttl_arg of None \<Rightarrow> 60000 | Some t \<Rightarrow> t)\<rparr> (cache c)"
  by (simp add: Cache_set_def Let_def)

lemma Cache_set_at_capacity:
  "maxSize c \<le> Map_size (cache c) \<Longrightarrow> cache c = p # ps \<Longrightarrow>
   cache (Cache_set c key v ttl_arg now)
     = Map_set key \<lparr>entry_value = v,
          expiry = now + (case ttl_arg of None \<Rightarrow> 60000 | Some t \<Rightarrow> t)\<rparr>
        (Map_delete (fst p) (p # ps))"
  by (simp add: Cache_set_def Let_def Map_first_key_def)

lemma maxSize_Cache_set [simp]: "maxSize (Cache_set c key v ttl_arg now) = maxSize c"
  by (simp add: Cache_set_def Let_def)

lemma maxSize_Cache_get [simp]: "maxSize (snd (Cache_get c key now)) = maxSize c"
  by (simp add: Cache_get_def split: option.splits)

lemma maxSize_Cache_clear [simp]: "maxSize (Cache_clear c) = maxSize c"
  by (simp add: Cache_clear_def)

lemma maxSize_exec [simp]: "maxSize (exec c tc) = maxSize c"
proof (cases tc)
  case (Pair now call)
  then show ?thesis by (cases call) simp_all
qed

lemma maxSize_run [simp]: "maxSize (run c calls) = maxSize c"
  unfolding run_def by (induction calls arbitrary: c) simp_all

text \<open>The size bound is kept by each method when the capacity is positive.\<close>

lemma Cache_set_size:
  assumes pos: "0 < maxSize c" and inv: "Map_size (cache c) \<le> maxSize c"
  shows "Map_size (cache (Cache_set c key v ttl_arg now)) \<le> maxSize c"
proof (cases "Map_size (cache c) < maxSize c")
  case True
  have "length (Map_set key \<lparr>entry_value = v,
          expiry = now + (case ttl_arg of None \<Rightarrow> 60000 | Some t \<Rightarrow> t)\<rparr> (cache c))
        \<le> Suc (length (cache c))"
    by (rule length_Map_set_le)
  with True show ?thesis
    by (simp add: Cache_set_below_capacity Map_size_def)
next
  case False
  with inv have full: "Map_size (cache c) = maxSize c" by simp
  with pos obtain p ps where store: "cache c = p # ps"
    by (cases "cache c") (auto simp: Map_size_def)
  let ?e = "\<lparr>entry_value = v,
          expiry = now + (case ttl_arg of None \<Rightarrow> 60000 | Some t \<Rightarrow> t)\<rparr>"
  have "length (Map_set key ?e (Map_delete (fst p) (p # ps)))
        \<le> Suc (length (Map_delete (fst p) (p # ps)))"
    by (rule length_Map_set_le)
  also have "\<dots> \<le> Suc (length ps)"
    using length_Map_delete_first [of p ps] by simp
  finally have "length (Map_set key ?e (Map_delete (fst p) (p # ps))) \<le> length (cache c)"
    by (simp add: store)
  moreover have "cache (Cache_set c key v ttl_arg now)
        = Map_set key ?e (Map_delete (fst p) (p # ps))"
    using full store by (intro Cache_set_at_capacity) simp_all
  ultimately show ?thesis
    using full by (simp add: Map_size_def)
qed

lemma Cache_get_size:
  "Map_size (cache (snd (Cache_get c key now))) \<le> Map_size (cache c)"
  using length_Map_delete_le [of key "cache c"]
  by (simp add: Cache_get_def Map_size_def split: option.splits)

lemma exec_size:
  assumes "0 < maxSize c" and "Map_size (cache c) \<le> maxSize c"
  shows "Map_size (cache (exec c tc)) \<le> maxSize c"
proof (cases tc)
  case (Pair now call)
  show ?thesis
  proof (cases call)
    case (Put key v ttl_arg)
    with Pair assms show ?thesis by (simp add: Cache_set_size)
  next
    case (Get key)
    with Pair assms Cache_get_size [of c key now] show ?thesis by simp
  next
    case Clear
    with Pair assms show ?thesis by (simp add: Cache_clear_def Map_size_def)
  qed
qed

lemma run_size:
  "0 < maxSize c \<Longrightarrow> Map_size (cache c) \<le> maxSize c \<Longrightarrow>
   Map_size (cache (run c calls)) \<le> maxSize c"
proof (induction calls arbitrary: c)
  case Nil
  then show ?case by (simp add: run_def)
next
  case (Cons tc calls)
  have "Map_size (cache (run (exec c tc) calls)) \<le> maxSize (exec c tc)"
    using Cons.prems by (intro Cons.IH) (simp_all add: exec_size)
  then show ?case by (simp add: run_def)
qed

text \<open>
  The keys of the store stay distinct, as the keys of a Map are: the association list
  of a cache reached from the constructor never holds a key twice.
\<close>

lemma Cache_set_distinct:
  "distinct (Map_keys (cache c)) \<Longrightarrow>
   distinct (Map_keys (cache (Cache_set c key v ttl_arg now)))"
  by (simp add: Cache_set_def Let_def distinct_Map_set distinct_Map_delete
      split: option.splits)

lemma Cache_get_distinct:
  "distinct (Map_keys (cache c)) \<Longrightarrow> distinct (Map_keys (cache (snd (Cache_get c key now))))"
  by (simp add: Cache_get_def distinct_Map_delete split: option.splits)

lemma exec_distinct:
  assumes "distinct (Map_keys (cache c))"
  shows "distinct (Map_keys (cache (exec c tc)))"
proof (cases tc)
  case (Pair now call)
  show ?thesis
  proof (cases call)
    case (Put key v ttl_arg)
    with Pair assms show ?thesis by (simp add: Cache_set_distinct)
  next
    case (Get key)
    with Pair assms show ?thesis by (simp add: Cache_get_distinct)
  next
    case Clear
    with Pair show ?thesis by (simp add: Cache_clear_def Map_keys_def)
  qed
qed

lemma run_distinct:
  "distinct (Map_keys (cache c)) \<Longrightarrow> distinct (Map_keys (cache (run c calls)))"
proof (induction calls arbitrary: c)
  case Nil
  then show ?case by (simp add: run_def)
next
  case (Cons tc calls)
  from Cons.prems have "distinct (Map_keys (cache (exec c tc)))"
    by (rule exec_distinct)
  then have "distinct (Map_keys (cache (run (exec c tc) calls)))"
    by (rule Cons.IH)
  then show ?case by (simp add: run_def)
qed

lemma constructed_distinct:
  "Cache maxSize_arg = Inr c \<Longrightarrow> distinct (Map_keys (cache (run c calls)))"
  by (rule run_distinct) (auto simp: Cache_def Map_keys_def)

text \<open>A \<^verbatim>\<open>get\<close> that follows the \<^verbatim>\<open>set\<close> of its key within the TTL reads the value stored.\<close>

lemma get_after_set:
  assumes "now \<le> t + ttl"
  shows "Cache_get (Cache_set c key v (Some ttl) t) key now = (v, Cache_set c key v (Some ttl) t)"
proof -
  have "Map_get (cache (Cache_set c key v (Some ttl) t)) key
      = Some \<lparr>entry_value = v, expiry = t + ttl\<rparr>"
    by (simp add: Cache_set_def Let_def Map_get_set)
  with assms show ?thesis
    by (simp add: Cache_get_def)
qed

text \<open>
  Overwriting a present key. Below capacity the entry is replaced where it stands and the
  keys keep their order. At capacity the oldest key is deleted first, also when the key
  being written is already in the map: a later key is then overwritten in a store that
  has lost its head.
\<close>

lemma Cache_set_present_below_capacity:
  assumes "Map_size (cache c) < maxSize c" and "key \<in> set (Map_keys (cache c))"
  shows "Map_keys (cache (Cache_set c key v ttl_arg now)) = Map_keys (cache c)"
  using assms by (simp add: Cache_set_below_capacity Map_keys_set)

lemma Cache_set_present_at_capacity:
  assumes dist: "distinct (Map_keys (cache c))" and store: "cache c = p # ps"
    and full: "Map_size (cache c) = maxSize c" and later: "key \<in> set (Map_keys ps)"
  shows "Map_keys (cache (Cache_set c key v ttl_arg now)) = Map_keys ps"
    and "Map_get (cache (Cache_set c key v ttl_arg now)) (fst p) = None"
proof -
  let ?e = "\<lparr>entry_value = v,
        expiry = now + (case ttl_arg of None \<Rightarrow> 60000 | Some t \<Rightarrow> t)\<rparr>"
  have "cache (Cache_set c key v ttl_arg now) = Map_set key ?e (Map_delete (fst p) (p # ps))"
    using full store by (intro Cache_set_at_capacity) simp_all
  also have "\<dots> = Map_set key ?e ps"
    using dist store by (simp add: Map_delete_first_distinct)
  finally have after: "cache (Cache_set c key v ttl_arg now) = Map_set key ?e ps" .
  with later show keys: "Map_keys (cache (Cache_set c key v ttl_arg now)) = Map_keys ps"
    by (simp add: Map_keys_set)
  from dist store have "fst p \<notin> set (Map_keys ps)"
    by (simp add: Map_keys_def)
  with keys show "Map_get (cache (Cache_set c key v ttl_arg now)) (fst p) = None"
    by (simp add: Map_get_None_iff)
qed

text \<open>
  With a capacity of zero or less the test \<^verbatim>\<open>size >= maxSize\<close> always holds, so every
  \<^verbatim>\<open>set\<close> first deletes the oldest key: the store never holds more than the last entry.
\<close>

lemma Cache_set_nonpositive:
  assumes "maxSize c \<le> 0" and "length (cache c) \<le> 1"
  shows "cache (Cache_set c key v ttl_arg now)
     = [(key, \<lparr>entry_value = v,
          expiry = now + (case ttl_arg of None \<Rightarrow> 60000 | Some t \<Rightarrow> t)\<rparr>)]"
proof (cases "cache c")
  case Nil
  with assms show ?thesis
    by (simp add: Cache_set_def Let_def Map_size_def Map_first_key_def)
next
  case (Cons p ps)
  with assms have "ps = []" by simp
  with Cons assms show ?thesis
    by (simp add: Cache_set_def Let_def Map_size_def Map_first_key_def Map_delete_def)
qed

lemma exec_nonpositive:
  assumes "maxSize c \<le> 0" and "length (cache c) \<le> 1"
  shows "length (cache (exec c tc)) \<le> 1"
proof (cases tc)
  case (Pair now call)
  show ?thesis
  proof (cases call)
    case (Put key v ttl_arg)
    with Pair assms show ?thesis by (simp add: Cache_set_nonpositive)
  next
    case (Get key)
    with Pair assms Cache_get_size [of c key now] show ?thesis
      by (simp add: Map_size_def)
  next
    case Clear
    with Pair show ?thesis by (simp add: Cache_clear_def)
  qed
qed

lemma run_nonpositive:
  "maxSize c \<le> 0 \<Longrightarrow> length (cache c) \<le> 1 \<Longrightarrow> length (cache (run c calls)) \<le> 1"
proof (induction calls arbitrary: c)
  case Nil
  then show ?case by (simp add: run_def)
next
  case (Cons tc calls)
  have "maxSize (exec c tc) \<le> 0"
    using Cons.prems(1) by simp
  moreover have "length (cache (exec c tc)) \<le> 1"
    using Cons.prems by (rule exec_nonpositive)
  ultimately have "length (cache (run (exec c tc) calls)) \<le> 1"
    by (rule Cons.IH)
  then show ?case by (simp add: run_def)
qed

section \<open>The claims\<close>

text \<open>
  C3. For a cache constructed with a positive capacity (given, or the default), and for
  every finite sequence of \<^verbatim>\<open>set\<close>, \<^verbatim>\<open>get\<close> and \<^verbatim>\<open>clear\<close> calls at any clock
  readings, the store holds at most \<open>maxSize\<close> entries after each call: after every prefix
  \<open>take i calls\<close> of the sequence.
\<close>

theorem size_within_capacity:
  assumes "Cache maxSize_arg = Inr c" and "0 < maxSize c"
  shows "Map_size (cache (run c (take i calls))) \<le> maxSize c"
proof -
  from assms(1) have "cache c = []"
    by (auto simp: Cache_def)
  then have "Map_size (cache c) \<le> maxSize c"
    using assms(2) by (simp add: Map_size_def)
  with assms(2) show ?thesis
    by (rule run_size)
qed

theorem size_within_capacity_witness:
  "Cache (Some 2) = Inr \<lparr>cache = ([] :: (string \<times> entry) list), maxSize = 2\<rparr>
   \<and> (0::int) < maxSize \<lparr>cache = ([] :: (string \<times> entry) list), maxSize = 2\<rparr>
   \<and> Map_size (cache (run \<lparr>cache = [], maxSize = 2\<rparr>
        (take 4 [(0, Put ''a'' (JNum 1) (Some 1000)), (1, Put ''b'' (JNum 2) None),
                 (2, Get ''a''), (3, Put ''c'' (JNum 3) (Some 1000)), (4, Clear)]))) \<le> 2"
proof -
  let ?c = "\<lparr>cache = ([] :: (string \<times> entry) list), maxSize = 2\<rparr>"
  have built: "Cache (Some 2) = Inr ?c"
    by (simp add: Cache_def)
  have pos: "0 < maxSize ?c"
    by simp
  from size_within_capacity [OF built pos, of 4
      "[(0, Put ''a'' (JNum 1) (Some 1000)), (1, Put ''b'' (JNum 2) None),
        (2, Get ''a''), (3, Put ''c'' (JNum 3) (Some 1000)), (4, Clear)]"]
  show ?thesis
    using built by simp
qed

text \<open>
  C8. After \<^verbatim>\<open>clear()\<close> the store is empty, and a \<^verbatim>\<open>get\<close> on any key (so on any key
  that was present before) returns the absent sentinel \<^verbatim>\<open>null\<close>, at any clock reading.
\<close>

theorem clear_empties_store:
  "cache (Cache_clear c) = []
   \<and> Map_size (cache (Cache_clear c)) = 0
   \<and> fst (Cache_get (Cache_clear c) key now) = JNull"
  by (simp add: Cache_clear_def Cache_get_def Map_get_def Map_size_def)

text \<open>
  C9. A \<^verbatim>\<open>set\<close> without a ttl argument behaves as one with ttl 60000: the entry it
  stores expires at \<open>now + 60000\<close>. A cache constructed without a capacity argument is
  the one constructed with capacity 100.
\<close>

theorem default_ttl_and_capacity:
  "Cache_set c key v None now = Cache_set c key v (Some 60000) now
   \<and> Map_get (cache (Cache_set c key v None now)) key
       = Some \<lparr>entry_value = v, expiry = now + 60000\<rparr>
   \<and> (Cache None :: js_throw + 'k cache_obj) = Cache (Some 100)
   \<and> (Cache None :: js_throw + 'k cache_obj) = Inr \<lparr>cache = [], maxSize = 100\<rparr>"
  by (simp add: Cache_set_def Cache_def Map_get_set Let_def)

text \<open>
  C4. When \<^verbatim>\<open>set\<close> stores a key that is not in the map while the map holds exactly
  \<open>maxSize\<close> entries (a positive number; the keys of a Map are distinct), exactly one
  entry leaves the store and it is the oldest one, the head of the insertion order: the
  store becomes the former store without its head, followed by the new entry. Every
  later-inserted entry stays, in its place, whatever the expiry times are, and the size
  is still \<open>maxSize\<close>. In particular, with capacity 2, after \<^verbatim>\<open>set("a",1,1000)\<close>,
  \<^verbatim>\<open>set("b",2,1000)\<close>, \<^verbatim>\<open>set("c",3,1000)\<close> (at clock readings \<open>t1\<close>, \<open>t2\<close>, \<open>t3\<close>),
  \<^verbatim>\<open>get("a")\<close> is \<^verbatim>\<open>null\<close> at any time, while \<^verbatim>\<open>get("b")\<close> is 2 and \<^verbatim>\<open>get("c")\<close> is 3
  as long as their TTLs have not elapsed.
\<close>

theorem overflow_evicts_oldest:
  "(distinct (Map_keys (cache c)) \<and> Map_get (cache c) key = None
      \<and> Map_size (cache c) = maxSize c \<and> 0 < maxSize c \<longrightarrow>
    (\<exists>oldest rest.
        cache c = oldest # rest
      \<and> Map_first_key (cache c) = Some (fst oldest)
      \<and> cache (Cache_set c key v ttl_arg now)
          = rest @ [(key, \<lparr>entry_value = v,
                expiry = now + (case ttl_arg of None \<Rightarrow> 60000 | Some t \<Rightarrow> t)\<rparr>)]
      \<and> Map_get (cache (Cache_set c key v ttl_arg now)) (fst oldest) = None
      \<and> Map_size (cache (Cache_set c key v ttl_arg now)) = maxSize c))
   \<and> (let c3 = run \<lparr>cache = [], maxSize = 2\<rparr>
                  [(t1, Put ''a'' (JNum 1) (Some 1000)),
                   (t2, Put ''b'' (JNum 2) (Some 1000)),
                   (t3, Put ''c'' (JNum 3) (Some 1000))]
       in Cache_get c3 ''a'' n1 = (JNull, c3)
        \<and> (n2 \<le> t2 + 1000 \<longrightarrow> Cache_get c3 ''b'' n2 = (JNum 2, c3))
        \<and> (n3 \<le> t3 + 1000 \<longrightarrow> Cache_get c3 ''c'' n3 = (JNum 3, c3)))"
proof (intro conjI impI)
  assume asm: "distinct (Map_keys (cache c)) \<and> Map_get (cache c) key = None
      \<and> Map_size (cache c) = maxSize c \<and> 0 < maxSize c"
  let ?e = "\<lparr>entry_value = v,
        expiry = now + (case ttl_arg of None \<Rightarrow> 60000 | Some t \<Rightarrow> t)\<rparr>"
  let ?c' = "Cache_set c key v ttl_arg now"
  from asm obtain p ps where store: "cache c = p # ps"
    by (cases "cache c") (auto simp: Map_size_def)
  from asm store have dist: "distinct (Map_keys (p # ps))"
    by simp
  from asm store have fresh: "key \<notin> set (Map_keys ps)" and differs: "key \<noteq> fst p"
    by (auto simp: Map_get_None_iff Map_keys_def)
  have "cache ?c' = Map_set key ?e (Map_delete (fst p) (p # ps))"
    using asm store by (intro Cache_set_at_capacity) simp_all
  also have "\<dots> = Map_set key ?e ps"
    using dist by (simp add: Map_delete_first_distinct)
  also have "\<dots> = ps @ [(key, ?e)]"
    using fresh by (rule Map_set_new)
  finally have after: "cache ?c' = ps @ [(key, ?e)]" .
  have "fst p \<notin> set (Map_keys (ps @ [(key, ?e)]))"
    using dist differs by (auto simp: Map_keys_def)
  then have gone: "Map_get (cache ?c') (fst p) = None"
    by (simp add: after Map_get_None_iff)
  have same_size: "Map_size (cache ?c') = maxSize c"
    using asm store by (simp add: after Map_size_def)
  have "Map_first_key (cache c) = Some (fst p)"
    by (simp add: store Map_first_key_def)
  with store after gone same_size
  show "\<exists>oldest rest.
        cache c = oldest # rest
      \<and> Map_first_key (cache c) = Some (fst oldest)
      \<and> cache ?c' = rest @ [(key, ?e)]
      \<and> Map_get (cache ?c') (fst oldest) = None
      \<and> Map_size (cache ?c') = maxSize c"
    by blast
next
  show "let c3 = run \<lparr>cache = [], maxSize = 2\<rparr>
                  [(t1, Put ''a'' (JNum 1) (Some 1000)),
                   (t2, Put ''b'' (JNum 2) (Some 1000)),
                   (t3, Put ''c'' (JNum 3) (Some 1000))]
       in Cache_get c3 ''a'' n1 = (JNull, c3)
        \<and> (n2 \<le> t2 + 1000 \<longrightarrow> Cache_get c3 ''b'' n2 = (JNum 2, c3))
        \<and> (n3 \<le> t3 + 1000 \<longrightarrow> Cache_get c3 ''c'' n3 = (JNum 3, c3))"
    by (simp add: run_def Cache_set_def Cache_get_def Let_def Map_size_def
        Map_first_key_def Map_delete_def Map_get_def)
qed

theorem overflow_evicts_oldest_witness:
  "distinct (Map_keys [(''a'', \<lparr>entry_value = JNum 1, expiry = 1000\<rparr>),
                       (''b'', \<lparr>entry_value = JNum 2, expiry = 10\<rparr>)])
   \<and> Map_get [(''a'', \<lparr>entry_value = JNum 1, expiry = 1000\<rparr>),
              (''b'', \<lparr>entry_value = JNum 2, expiry = 10\<rparr>)] ''c'' = None
   \<and> Map_size [(''a'', \<lparr>entry_value = JNum 1, expiry = 1000\<rparr>),
               (''b'', \<lparr>entry_value = JNum 2, expiry = 10\<rparr>)] = 2
   \<and> cache (Cache_set
        \<lparr>cache = [(''a'', \<lparr>entry_value = JNum 1, expiry = 1000\<rparr>),
                  (''b'', \<lparr>entry_value = JNum 2, expiry = 10\<rparr>)], maxSize = 2\<rparr>
        ''c'' (JNum 3) (Some 1000) 5)
       = [(''b'', \<lparr>entry_value = JNum 2, expiry = 10\<rparr>),
          (''c'', \<lparr>entry_value = JNum 3, expiry = 1005\<rparr>)]
   \<and> Cache_get (run \<lparr>cache = [], maxSize = 2\<rparr>
                  [(0, Put ''a'' (JNum 1) (Some 1000)),
                   (1, Put ''b'' (JNum 2) (Some 1000)),
                   (2, Put ''c'' (JNum 3) (Some 1000))]) ''b'' 1001
       = (JNum 2, run \<lparr>cache = [], maxSize = 2\<rparr>
                  [(0, Put ''a'' (JNum 1) (Some 1000)),
                   (1, Put ''b'' (JNum 2) (Some 1000)),
                   (2, Put ''c'' (JNum 3) (Some 1000))])"
proof -
  let ?m = "[(''a'', \<lparr>entry_value = JNum 1, expiry = 1000\<rparr>),
             (''b'', \<lparr>entry_value = JNum 2, expiry = 10\<rparr>)]"
  let ?c = "\<lparr>cache = ?m, maxSize = 2\<rparr>"
  have pre: "distinct (Map_keys (cache ?c)) \<and> Map_get (cache ?c) ''c'' = None
      \<and> Map_size (cache ?c) = maxSize ?c \<and> 0 < maxSize ?c"
    by (simp add: Map_keys_def Map_get_def Map_size_def)
  from overflow_evicts_oldest [of ?c "''c''" "JNum 3" "Some 1000" 5 0 1 2 0 1001 0] pre
  show ?thesis
    by (simp add: Map_keys_def Map_get_def Map_size_def Let_def)
qed

text \<open>
  C7, as stated, fails at the boundary. The spec calls an entry expired when its
  \<open>expiry\<close> is at or before the current time. For an entry with \<open>expiry = 7\<close> read at
  clock reading 7, \<^verbatim>\<open>get\<close> returns the stored value, not \<^verbatim>\<open>null\<close>, and deletes
  nothing: the key is still among the keys of the store and a lookup still finds the entry.
\<close>

theorem get_at_expiry_keeps_entry:
  "expiry \<lparr>entry_value = JStr ''v'', expiry = 7\<rparr> \<le> 7
   \<and> Cache_get \<lparr>cache = [(''x'', \<lparr>entry_value = JStr ''v'', expiry = 7\<rparr>),
                        (''y'', \<lparr>entry_value = JNum 4, expiry = 9\<rparr>)], maxSize = 5\<rparr> ''x'' 7
     = (JStr ''v'', \<lparr>cache = [(''x'', \<lparr>entry_value = JStr ''v'', expiry = 7\<rparr>),
                              (''y'', \<lparr>entry_value = JNum 4, expiry = 9\<rparr>)], maxSize = 5\<rparr>)
   \<and> JStr ''v'' \<noteq> JNull
   \<and> ''x'' \<in> set (Map_keys (cache (snd (Cache_get
        \<lparr>cache = [(''x'', \<lparr>entry_value = JStr ''v'', expiry = 7\<rparr>),
                  (''y'', \<lparr>entry_value = JNum 4, expiry = 9\<rparr>)], maxSize = 5\<rparr> ''x'' 7))))
   \<and> Map_get (cache (snd (Cache_get
        \<lparr>cache = [(''x'', \<lparr>entry_value = JStr ''v'', expiry = 7\<rparr>),
                  (''y'', \<lparr>entry_value = JNum 4, expiry = 9\<rparr>)], maxSize = 5\<rparr> ''x'' 7))) ''x''
     = Some \<lparr>entry_value = JStr ''v'', expiry = 7\<rparr>"
  by (simp add: Cache_get_def Map_get_def Map_keys_def)

text \<open>
  C7, amended. A \<^verbatim>\<open>get\<close> on a key whose entry's \<open>expiry\<close> is strictly before the
  current time (the test of the source is \<^verbatim>\<open>Date.now() > data.expiry\<close>) returns
  \<^verbatim>\<open>null\<close> and deletes the entry: the store it leaves is the former store without that
  key, so the key is in no later enumeration of the keys, a lookup of it finds nothing, a
  \<^verbatim>\<open>get\<close> of it at any later reading is \<^verbatim>\<open>null\<close> again, and every other key keeps
  its entry. When the \<open>expiry\<close> equals the current time the entry is not yet expired:
  \<^verbatim>\<open>get\<close> returns its value and leaves the store as it is.
\<close>

theorem get_expired_deletes:
  "(Map_get (cache c) key = Some data \<and> expiry data < now \<longrightarrow>
        fst (Cache_get c key now) = JNull
      \<and> cache (snd (Cache_get c key now)) = Map_delete key (cache c)
      \<and> key \<notin> set (Map_keys (cache (snd (Cache_get c key now))))
      \<and> Map_get (cache (snd (Cache_get c key now))) key = None
      \<and> fst (Cache_get (snd (Cache_get c key now)) key later) = JNull
      \<and> (\<forall>k. k \<noteq> key \<longrightarrow>
            Map_get (cache (snd (Cache_get c key now))) k = Map_get (cache c) k))
   \<and> (Map_get (cache c) key = Some data \<and> expiry data = now \<longrightarrow>
        Cache_get c key now = (entry_value data, c))"
proof -
  have past: "Map_get (cache c) key = Some data \<and> expiry data < now \<longrightarrow>
        fst (Cache_get c key now) = JNull
      \<and> cache (snd (Cache_get c key now)) = Map_delete key (cache c)
      \<and> key \<notin> set (Map_keys (cache (snd (Cache_get c key now))))
      \<and> Map_get (cache (snd (Cache_get c key now))) key = None
      \<and> fst (Cache_get (snd (Cache_get c key now)) key later) = JNull
      \<and> (\<forall>k. k \<noteq> key \<longrightarrow>
            Map_get (cache (snd (Cache_get c key now))) k = Map_get (cache c) k)"
  proof (rule impI)
    assume "Map_get (cache c) key = Some data \<and> expiry data < now"
    then have result: "Cache_get c key now = (JNull, c\<lparr>cache := Map_delete key (cache c)\<rparr>)"
      by (simp add: Cache_get_def)
    have absent: "Map_get (Map_delete key (cache c)) key = None"
      by (simp add: Map_get_delete)
    then have "key \<notin> set (Map_keys (Map_delete key (cache c)))"
      by (simp add: Map_get_None_iff)
    moreover have "fst (Cache_get (c\<lparr>cache := Map_delete key (cache c)\<rparr>) key later) = JNull"
      using absent by (simp add: Cache_get_def)
    ultimately show "fst (Cache_get c key now) = JNull
      \<and> cache (snd (Cache_get c key now)) = Map_delete key (cache c)
      \<and> key \<notin> set (Map_keys (cache (snd (Cache_get c key now))))
      \<and> Map_get (cache (snd (Cache_get c key now))) key = None
      \<and> fst (Cache_get (snd (Cache_get c key now)) key later) = JNull
      \<and> (\<forall>k. k \<noteq> key \<longrightarrow>
            Map_get (cache (snd (Cache_get c key now))) k = Map_get (cache c) k)"
      using absent by (simp add: result Map_get_delete)
  qed
  have boundary: "Map_get (cache c) key = Some data \<and> expiry data = now \<longrightarrow>
        Cache_get c key now = (entry_value data, c)"
    by (auto simp: Cache_get_def)
  from past boundary show ?thesis
    by (rule conjI)
qed

theorem get_expired_deletes_witness:
  "Map_get (cache \<lparr>cache = [(''x'', \<lparr>entry_value = JStr ''v'', expiry = 7\<rparr>),
                            (''y'', \<lparr>entry_value = JNum 4, expiry = 9\<rparr>)], maxSize = 5\<rparr>) ''x''
     = Some \<lparr>entry_value = JStr ''v'', expiry = 7\<rparr>
   \<and> expiry \<lparr>entry_value = JStr ''v'', expiry = 7\<rparr> < 8
   \<and> Cache_get \<lparr>cache = [(''x'', \<lparr>entry_value = JStr ''v'', expiry = 7\<rparr>),
                        (''y'', \<lparr>entry_value = JNum 4, expiry = 9\<rparr>)], maxSize = 5\<rparr> ''x'' 8
     = (JNull, \<lparr>cache = [(''y'', \<lparr>entry_value = JNum 4, expiry = 9\<rparr>)], maxSize = 5\<rparr>)
   \<and> ''x'' \<notin> set (Map_keys (cache (snd (Cache_get
        \<lparr>cache = [(''x'', \<lparr>entry_value = JStr ''v'', expiry = 7\<rparr>),
                  (''y'', \<lparr>entry_value = JNum 4, expiry = 9\<rparr>)], maxSize = 5\<rparr> ''x'' 8))))
   \<and> Map_get (cache \<lparr>cache = [(''x'', \<lparr>entry_value = JStr ''v'', expiry = 7\<rparr>),
                            (''y'', \<lparr>entry_value = JNum 4, expiry = 9\<rparr>)], maxSize = 5\<rparr>) ''y''
     = Some \<lparr>entry_value = JNum 4, expiry = 9\<rparr>
   \<and> expiry \<lparr>entry_value = JNum 4, expiry = 9\<rparr> = 9
   \<and> Cache_get \<lparr>cache = [(''x'', \<lparr>entry_value = JStr ''v'', expiry = 7\<rparr>),
                        (''y'', \<lparr>entry_value = JNum 4, expiry = 9\<rparr>)], maxSize = 5\<rparr> ''y'' 9
     = (JNum 4, \<lparr>cache = [(''x'', \<lparr>entry_value = JStr ''v'', expiry = 7\<rparr>),
                            (''y'', \<lparr>entry_value = JNum 4, expiry = 9\<rparr>)], maxSize = 5\<rparr>)"
proof -
  let ?d = "\<lparr>entry_value = JStr ''v'', expiry = 7\<rparr>"
  let ?e = "\<lparr>entry_value = JNum 4, expiry = 9\<rparr>"
  let ?c = "\<lparr>cache = [(''x'', ?d), (''y'', ?e)], maxSize = 5\<rparr>"
  have present: "Map_get (cache ?c) ''x'' = Some ?d"
    by (simp add: Map_get_def)
  have other: "Map_get (cache ?c) ''y'' = Some ?e"
    by (simp add: Map_get_def)
  have past: "expiry ?d < 8"
    by simp
  have left: "Cache_get ?c ''x'' 8 = (JNull, \<lparr>cache = [(''y'', ?e)], maxSize = 5\<rparr>)"
    by (simp add: Cache_get_def Map_get_def Map_delete_def)
  have deleted: "''x'' \<notin> set (Map_keys (cache (snd (Cache_get ?c ''x'' 8))))"
    using get_expired_deletes [of ?c "''x''" ?d 8 8] present past by blast
  have kept: "Cache_get ?c ''y'' 9 = (JNum 4, ?c)"
    using get_expired_deletes [of ?c "''y''" ?e 9 9] other by simp
  from present past left deleted other kept show ?thesis
    by simp
qed

text \<open>
  C5, as stated, fails at the boundary: an entry stored with \<open>ttl = 0\<close> at clock
  reading 7 has \<open>expiry = 7\<close>, which is at (not after) the reading of a \<^verbatim>\<open>get\<close> in the
  same millisecond, and that \<^verbatim>\<open>get\<close> returns the stored value, not \<^verbatim>\<open>null\<close>.
\<close>

theorem get_at_expiry_returns_value:
  "Map_get (cache (Cache_set \<lparr>cache = [], maxSize = 5\<rparr> ''x'' (JStr ''v'') (Some 0) 7)) ''x''
     = Some \<lparr>entry_value = JStr ''v'', expiry = 7\<rparr>
   \<and> expiry \<lparr>entry_value = JStr ''v'', expiry = 7\<rparr> \<le> 7
   \<and> fst (Cache_get (Cache_set \<lparr>cache = [], maxSize = 5\<rparr> ''x'' (JStr ''v'') (Some 0) 7)
          ''x'' 7) = JStr ''v''
   \<and> JStr ''v'' \<noteq> JNull"
  by (simp add: Cache_set_def Cache_get_def Let_def Map_size_def Map_get_def)

text \<open>
  C5, amended. \<^verbatim>\<open>get(key)\<close> returns \<^verbatim>\<open>null\<close> whenever the entry's \<open>expiry\<close> is strictly
  before the current time (the test of the source is \<^verbatim>\<open>Date.now() > data.expiry\<close>); at
  \<open>now = expiry\<close> the stored value is still returned. In particular an entry stored with
  \<open>ttl = 0\<close> at reading \<open>t\<close> is expired for every read at a later reading, and is
  returned by a read at the reading \<open>t\<close> itself.
\<close>

theorem get_null_strictly_after_expiry:
  "(Map_get (cache c) key = Some data \<and> expiry data < now \<longrightarrow>
      fst (Cache_get c key now) = JNull)
   \<and> (Map_get (cache c) key = Some data \<and> expiry data = now \<longrightarrow>
      Cache_get c key now = (entry_value data, c))
   \<and> (t < now \<longrightarrow> fst (Cache_get (Cache_set c key v (Some 0) t) key now) = JNull)
   \<and> fst (Cache_get (Cache_set c key v (Some 0) t) key t) = v"
proof -
  have stored: "Map_get (cache (Cache_set c key v (Some 0) t)) key
      = Some \<lparr>entry_value = v, expiry = t\<rparr>"
    by (simp add: Cache_set_def Let_def Map_get_set)
  have past: "Map_get (cache c) key = Some data \<and> expiry data < now \<longrightarrow>
      fst (Cache_get c key now) = JNull"
    by (simp add: Cache_get_def)
  have boundary: "Map_get (cache c) key = Some data \<and> expiry data = now \<longrightarrow>
      Cache_get c key now = (entry_value data, c)"
    by (auto simp: Cache_get_def)
  have later: "t < now \<longrightarrow> fst (Cache_get (Cache_set c key v (Some 0) t) key now) = JNull"
    by (simp add: Cache_get_def stored)
  have same: "fst (Cache_get (Cache_set c key v (Some 0) t) key t) = v"
    by (simp add: Cache_get_def stored)
  from past boundary later same show ?thesis
    by (intro conjI)
qed

theorem get_null_strictly_after_expiry_witness:
  "Map_get (cache \<lparr>cache = [(''x'', \<lparr>entry_value = JStr ''v'', expiry = 7\<rparr>)], maxSize = 5\<rparr>) ''x''
     = Some \<lparr>entry_value = JStr ''v'', expiry = 7\<rparr>
   \<and> expiry \<lparr>entry_value = JStr ''v'', expiry = 7\<rparr> < 8
   \<and> fst (Cache_get \<lparr>cache = [(''x'', \<lparr>entry_value = JStr ''v'', expiry = 7\<rparr>)], maxSize = 5\<rparr>
          ''x'' 8) = JNull
   \<and> (7::int) < 8
   \<and> fst (Cache_get (Cache_set \<lparr>cache = [], maxSize = 5\<rparr> ''x'' (JStr ''v'') (Some 0) 7)
          ''x'' 8) = JNull"
proof -
  let ?d = "\<lparr>entry_value = JStr ''v'', expiry = 7\<rparr>"
  let ?c = "\<lparr>cache = [(''x'', ?d)], maxSize = 5\<rparr>"
  let ?fresh = "\<lparr>cache = ([] :: (string \<times> entry) list), maxSize = 5\<rparr>"
  have present: "Map_get (cache ?c) ''x'' = Some ?d"
    by (simp add: Map_get_def)
  from get_null_strictly_after_expiry [of ?c "''x''" ?d 8 7 "JStr ''v''"]
       get_null_strictly_after_expiry [of ?fresh "''x''" ?d 8 7 "JStr ''v''"] present
  show ?thesis
    by simp
qed

text \<open>
  C6, as stated, fails: the constructor has no check of its argument. Called with 0 or
  with -1 it returns a cache, and the cache built with capacity 0 then stores an entry
  and gives it back.
\<close>

theorem zero_capacity_constructs:
  "(Cache (Some 0) :: js_throw + string cache_obj) = Inr \<lparr>cache = [], maxSize = 0\<rparr>
   \<and> (Cache (Some (- 1)) :: js_throw + string cache_obj) = Inr \<lparr>cache = [], maxSize = - 1\<rparr>
   \<and> Cache_get (Cache_set \<lparr>cache = [], maxSize = 0\<rparr> ''k'' (JNum 1) (Some 5000) 0) ''k'' 0
       = (JNum 1, \<lparr>cache = [(''k'', \<lparr>entry_value = JNum 1, expiry = 5000\<rparr>)], maxSize = 0\<rparr>)"
  by (simp add: Cache_def Cache_set_def Cache_get_def Let_def Map_size_def
      Map_first_key_def Map_get_def)

text \<open>
  C6, amended. Constructing a cache with a capacity of zero or a negative capacity is not
  rejected: the constructor returns an empty cache with that \<open>maxSize\<close>. The cache is
  neither always empty nor unbounded: after any sequence of calls it holds at most one
  entry, and every \<^verbatim>\<open>set\<close> leaves exactly the entry it stores.
\<close>

theorem nonpositive_capacity_accepted:
  assumes "n \<le> 0"
  shows "(Cache (Some n) :: js_throw + 'k cache_obj) = Inr \<lparr>cache = [], maxSize = n\<rparr>
       \<and> Map_size (cache (run \<lparr>cache = ([] :: ('k \<times> entry) list), maxSize = n\<rparr> calls)) \<le> 1
       \<and> cache (Cache_set (run \<lparr>cache = ([] :: ('k \<times> entry) list), maxSize = n\<rparr> calls)
            key v ttl_arg now)
          = [(key, \<lparr>entry_value = v,
               expiry = now + (case ttl_arg of None \<Rightarrow> 60000 | Some t \<Rightarrow> t)\<rparr>)]"
proof -
  let ?fresh = "\<lparr>cache = ([] :: ('k \<times> entry) list), maxSize = n\<rparr>"
  have built: "(Cache (Some n) :: js_throw + 'k cache_obj) = Inr ?fresh"
    by (simp add: Cache_def)
  have small: "length (cache (run ?fresh calls)) \<le> 1"
    using assms by (intro run_nonpositive) simp_all
  then have bound: "Map_size (cache (run ?fresh calls)) \<le> 1"
    by (simp add: Map_size_def)
  have "maxSize (run ?fresh calls) \<le> 0"
    using assms by simp
  then have last: "cache (Cache_set (run ?fresh calls) key v ttl_arg now)
          = [(key, \<lparr>entry_value = v,
               expiry = now + (case ttl_arg of None \<Rightarrow> 60000 | Some t \<Rightarrow> t)\<rparr>)]"
    using small by (rule Cache_set_nonpositive)
  from built bound last show ?thesis
    by (intro conjI)
qed

theorem nonpositive_capacity_accepted_witness:
  "(0::int) \<le> 0
   \<and> (Cache (Some 0) :: js_throw + string cache_obj) = Inr \<lparr>cache = [], maxSize = 0\<rparr>
   \<and> Map_size (cache (run \<lparr>cache = [], maxSize = 0\<rparr>
         [(0, Put ''a'' (JNum 1) None), (1, Put ''b'' (JNum 2) None)])) \<le> 1
   \<and> cache (Cache_set (run \<lparr>cache = [], maxSize = 0\<rparr>
         [(0, Put ''a'' (JNum 1) None), (1, Put ''b'' (JNum 2) None)])
         ''c'' (JNum 3) (Some 10) 2)
       = [(''c'', \<lparr>entry_value = JNum 3, expiry = 12\<rparr>)]"
proof -
  have nonpos: "(0::int) \<le> 0"
    by simp
  from nonpositive_capacity_accepted [OF nonpos,
      of "[(0, Put ''a'' (JNum 1) None), (1, Put ''b'' (JNum 2) None)]"
         "''c''" "JNum 3" "Some 10" 2]
  show ?thesis
    by simp
qed

text \<open>
  C10. A caller cannot tell a stored \<^verbatim>\<open>null\<close> from an absent entry through \<^verbatim>\<open>get\<close>:
  for a key whose entry holds \<^verbatim>\<open>null\<close> and has not expired, \<^verbatim>\<open>get\<close> returns \<^verbatim>\<open>null\<close>
  and leaves the cache as it is, exactly as it does for a key that is not in the store
  (never set, evicted, or deleted); an expired entry gives \<^verbatim>\<open>null\<close> as well. So a
  \<^verbatim>\<open>set\<close> of \<^verbatim>\<open>null\<close> followed by a \<^verbatim>\<open>get\<close> within the TTL returns \<^verbatim>\<open>null\<close>.
\<close>

theorem null_payload_reads_as_absent:
  "(Map_get (cache c) key = Some data \<and> entry_value data = JNull \<and> now \<le> expiry data \<longrightarrow>
      Cache_get c key now = (JNull, c))
   \<and> (Map_get (cache c) key = None \<longrightarrow> Cache_get c key now = (JNull, c))
   \<and> (Map_get (cache c) key = Some data \<and> expiry data < now \<longrightarrow>
      fst (Cache_get c key now) = JNull)
   \<and> (now \<le> t + ttl \<longrightarrow>
      fst (Cache_get (Cache_set c key JNull (Some ttl) t) key now) = JNull)"
proof -
  have stored_null: "Map_get (cache c) key = Some data \<and> entry_value data = JNull
        \<and> now \<le> expiry data \<longrightarrow> Cache_get c key now = (JNull, c)"
    by (auto simp: Cache_get_def)
  have missing: "Map_get (cache c) key = None \<longrightarrow> Cache_get c key now = (JNull, c)"
    by (simp add: Cache_get_def)
  have expired: "Map_get (cache c) key = Some data \<and> expiry data < now \<longrightarrow>
      fst (Cache_get c key now) = JNull"
    by (simp add: Cache_get_def)
  have "Map_get (cache (Cache_set c key JNull (Some ttl) t)) key
      = Some \<lparr>entry_value = JNull, expiry = t + ttl\<rparr>"
    by (simp add: Cache_set_def Let_def Map_get_set)
  then have after_set: "now \<le> t + ttl \<longrightarrow>
      fst (Cache_get (Cache_set c key JNull (Some ttl) t) key now) = JNull"
    by (simp add: Cache_get_def)
  from stored_null missing expired after_set show ?thesis
    by (intro conjI)
qed

theorem null_payload_reads_as_absent_witness:
  "Map_get (cache \<lparr>cache = [(''n'', \<lparr>entry_value = JNull, expiry = 100\<rparr>)], maxSize = 5\<rparr>) ''n''
     = Some \<lparr>entry_value = JNull, expiry = 100\<rparr>
   \<and> entry_value \<lparr>entry_value = JNull, expiry = 100\<rparr> = JNull
   \<and> 50 \<le> expiry \<lparr>entry_value = JNull, expiry = 100\<rparr>
   \<and> Cache_get \<lparr>cache = [(''n'', \<lparr>entry_value = JNull, expiry = 100\<rparr>)], maxSize = 5\<rparr> ''n'' 50
     = (JNull, \<lparr>cache = [(''n'', \<lparr>entry_value = JNull, expiry = 100\<rparr>)], maxSize = 5\<rparr>)
   \<and> Map_get (cache \<lparr>cache = [(''n'', \<lparr>entry_value = JNull, expiry = 100\<rparr>)], maxSize = 5\<rparr>) ''z''
     = None
   \<and> Cache_get \<lparr>cache = [(''n'', \<lparr>entry_value = JNull, expiry = 100\<rparr>)], maxSize = 5\<rparr> ''z'' 50
     = (JNull, \<lparr>cache = [(''n'', \<lparr>entry_value = JNull, expiry = 100\<rparr>)], maxSize = 5\<rparr>)
   \<and> (50::int) \<le> 0 + 100
   \<and> fst (Cache_get (Cache_set \<lparr>cache = [], maxSize = 5\<rparr> ''n'' JNull (Some 100) 0) ''n'' 50)
     = JNull"
proof -
  let ?d = "\<lparr>entry_value = JNull, expiry = 100\<rparr>"
  let ?c = "\<lparr>cache = [(''n'', ?d)], maxSize = 5\<rparr>"
  let ?fresh = "\<lparr>cache = ([] :: (string \<times> entry) list), maxSize = 5\<rparr>"
  have present: "Map_get (cache ?c) ''n'' = Some ?d"
    by (simp add: Map_get_def)
  have missing: "Map_get (cache ?c) ''z'' = None"
    by (simp add: Map_get_def)
  from null_payload_reads_as_absent [of ?c "''n''" ?d 50 0 100]
       null_payload_reads_as_absent [of ?c "''z''" ?d 50 0 100]
       null_payload_reads_as_absent [of ?fresh "''n''" ?d 50 0 100]
       present missing
  show ?thesis
    by simp
qed

text \<open>
  C1 evaluated where it fails. Capacity 2 and two distinct keys: after
  \<^verbatim>\<open>set("a",1,1000)\<close>, \<^verbatim>\<open>set("b",2,1000)\<close>, \<^verbatim>\<open>set("b",3,1000)\<close>, all at clock reading 0,
  the third call finds the map full, deletes the oldest key \<^verbatim>\<open>"a"\<close> and then overwrites
  \<^verbatim>\<open>"b"\<close>. A \<^verbatim>\<open>get("a")\<close> at reading 0, long before the TTL of 1000 elapses, returns
  \<^verbatim>\<open>null\<close> instead of the most recently put value 1.
\<close>

theorem overwrite_when_full_loses_live_key:
  "(Cache (Some 2) :: js_throw + string cache_obj) = Inr \<lparr>cache = [], maxSize = 2\<rparr>
   \<and> fst (Cache_get (run \<lparr>cache = [], maxSize = 2\<rparr>
              [(0, Put ''a'' (JNum 1) (Some 1000)),
               (0, Put ''b'' (JNum 2) (Some 1000)),
               (0, Put ''b'' (JNum 3) (Some 1000))]) ''a'' 0) = JNull
   \<and> fst (Cache_get (run \<lparr>cache = [], maxSize = 2\<rparr>
              [(0, Put ''a'' (JNum 1) (Some 1000)),
               (0, Put ''b'' (JNum 2) (Some 1000)),
               (0, Put ''b'' (JNum 3) (Some 1000))]) ''b'' 0) = JNum 3"
  by (simp add: Cache_def run_def Cache_set_def Cache_get_def Let_def Map_size_def
      Map_first_key_def Map_delete_def Map_get_def)

text \<open>
  C2 evaluated where it fails. With capacity 2 and the store full with \<^verbatim>\<open>"a"\<close>, \<^verbatim>\<open>"b"\<close>:
  overwriting \<^verbatim>\<open>"b"\<close> evicts \<^verbatim>\<open>"a"\<close> and the store shrinks to one entry; overwriting
  \<^verbatim>\<open>"a"\<close>, the oldest key, deletes it first and stores it again at the end, so it has
  lost its place in the insertion order (the next overflow evicts \<^verbatim>\<open>"b"\<close>, not \<^verbatim>\<open>"a"\<close>).
  With capacity 1 the only key is deleted and stored again: the value is 2 and the size
  stays 1.
\<close>

theorem overwrite_when_full_evicts_oldest:
  "cache (Cache_set \<lparr>cache = [(''a'', \<lparr>entry_value = JNum 1, expiry = 1000\<rparr>),
                              (''b'', \<lparr>entry_value = JNum 2, expiry = 1000\<rparr>)], maxSize = 2\<rparr>
            ''b'' (JNum 3) (Some 1000) 0)
     = [(''b'', \<lparr>entry_value = JNum 3, expiry = 1000\<rparr>)]
   \<and> cache (Cache_set \<lparr>cache = [(''a'', \<lparr>entry_value = JNum 1, expiry = 1000\<rparr>),
                              (''b'', \<lparr>entry_value = JNum 2, expiry = 1000\<rparr>)], maxSize = 2\<rparr>
            ''a'' (JNum 3) (Some 1000) 0)
     = [(''b'', \<lparr>entry_value = JNum 2, expiry = 1000\<rparr>),
        (''a'', \<lparr>entry_value = JNum 3, expiry = 1000\<rparr>)]
   \<and> cache (run \<lparr>cache = [], maxSize = 1\<rparr>
              [(0, Put ''k'' (JNum 1) (Some 5000)), (0, Put ''k'' (JNum 2) (Some 5000))])
     = [(''k'', \<lparr>entry_value = JNum 2, expiry = 5000\<rparr>)]"
  by (simp add: run_def Cache_set_def Let_def Map_size_def Map_first_key_def Map_delete_def)

end
